theory Spec2Isabelle
  imports Main "HOL-Library.Sublist"
begin

section \<open>JavaScript strings\<close>

text \<open>
  A JavaScript string is a sequence of UTF-16 code units. The model covers the texts
  whose code units are all below 256: a \<^typ>\<open>char\<close> \<open>c\<close> stands for the code unit
  \<open>of_char c\<close>, so \<open>CHR 0xA0\<close> is the no-break space and \<open>CHR 0xC0\<close> .. \<open>CHR 0xDE\<close>
  are the accented capitals of Latin-1. The backing file is identified with the text
  that \<open>fs.readFile(csvFilePath, 'utf8', ...)\<close> decodes from it.
\<close>

definition is_ws :: "char \<Rightarrow> bool" where
  \<comment> \<open>WhiteSpace and LineTerminator of ECMAScript below U+0100: TAB, LF, VT, FF, CR, SP, NBSP.\<close>
  "is_ws c = (c \<in> {CHR 0x09, CHR 0x0A, CHR 0x0B, CHR 0x0C, CHR 0x0D, CHR 0x20, CHR 0xA0})"

definition trim :: "string \<Rightarrow> string" where
  \<comment> \<open>\<open>String.prototype.trim\<close>\<close>
  "trim s = rev (dropWhile is_ws (rev (dropWhile is_ws s)))"

fun js_split :: "char \<Rightarrow> string \<Rightarrow> string list" where
  \<comment> \<open>\<open>s.split(sep)\<close> for a separator of one character; never returns the empty array.\<close>
  "js_split sep [] = [[]]"
| "js_split sep (c # cs) =
     (if c = sep then [] # js_split sep cs
      else (case js_split sep cs of
              [] \<Rightarrow> [[c]]
            | piece # pieces \<Rightarrow> (c # piece) # pieces))"

fun js_join :: "char \<Rightarrow> string list \<Rightarrow> string" where
  \<comment> \<open>\<open>xs.join(sep)\<close> on an array of strings\<close>
  "js_join sep [] = []"
| "js_join sep [x] = x"
| "js_join sep (x # y # ys) = x @ sep # js_join sep (y # ys)"

definition toLowerCase_char :: "char \<Rightarrow> char" where
  \<comment> \<open>A..Z, and the Latin-1 capitals U+00C0..U+00DE except the multiplication sign U+00D7.\<close>
  "toLowerCase_char c =
     (let n = (of_char c :: nat)
      in if (65 \<le> n \<and> n \<le> 90) \<or> (192 \<le> n \<and> n \<le> 222 \<and> n \<noteq> 215)
         then char_of (n + 32) else c)"

definition toLowerCase :: "string \<Rightarrow> string" where
  "toLowerCase s = map toLowerCase_char s"

fun js_includes :: "string \<Rightarrow> string \<Rightarrow> bool" where
  \<comment> \<open>\<open>s.includes(q)\<close>: \<open>q\<close> occurs in \<open>s\<close> at some position\<close>
  "js_includes [] q = (q = [])"
| "js_includes (c # cs) q = (prefix q (c # cs) \<or> js_includes cs q)"

section \<open>JavaScript objects\<close>

text \<open>
  A field of a student object is a string (everything \<open>getStudents\<close> stores) or, for an
  object that \<open>querystring.parse\<close> built from a body that repeats a key, an array of
  strings.
\<close>

datatype jsval = Str string | Arr "string list"

text \<open>
  An object is the list of its own properties in the order \<open>Object.keys\<close> reports them:
  first the keys that are array indices, in ascending numeric order, then the other
  keys in the order of their creation.
\<close>

type_synonym jsobj = "(string \<times> jsval) list"
type_synonym table = "jsobj list"

definition is_digit :: "char \<Rightarrow> bool" where
  "is_digit c = (48 \<le> (of_char c :: nat) \<and> (of_char c :: nat) \<le> 57)"

definition digits_val :: "string \<Rightarrow> int" where
  "digits_val s = foldl (\<lambda>n c. 10 * n + (of_char c - 48)) 0 s"

definition is_array_index :: "string \<Rightarrow> bool" where
  \<comment> \<open>the canonical decimal numeral of an integer from 0 to 2^32 - 2\<close>
  "is_array_index k =
     (k \<noteq> [] \<and> list_all is_digit k \<and> (k = ''0'' \<or> hd k \<noteq> CHR ''0'')
      \<and> length k \<le> 10 \<and> digits_val k < 4294967295)"

definition Object_keys :: "jsobj \<Rightarrow> string list" where
  "Object_keys obj = map fst obj"

definition Object_values :: "jsobj \<Rightarrow> jsval list" where
  "Object_values obj = map snd obj"

definition get_prop :: "jsobj \<Rightarrow> string \<Rightarrow> jsval option" where
  \<comment> \<open>\<open>obj[k]\<close> for a key that \<open>Object.prototype\<close> does not define; \<open>None\<close> is \<open>undefined\<close>\<close>
  "get_prop obj k = map_of obj k"

fun update_prop :: "string \<Rightarrow> jsval \<Rightarrow> jsobj \<Rightarrow> jsobj" where
  "update_prop k v [] = []"
| "update_prop k v ((k', v') # obj) =
     (if k' = k then (k, v) # obj else (k', v') # update_prop k v obj)"

fun insert_prop :: "string \<Rightarrow> jsval \<Rightarrow> jsobj \<Rightarrow> jsobj" where
  \<comment> \<open>a new key: an array index goes among the array indices, any other key to the end\<close>
  "insert_prop k v [] = [(k, v)]"
| "insert_prop k v ((k', v') # obj) =
     (if is_array_index k \<and> \<not> (is_array_index k' \<and> digits_val k' < digits_val k)
      then (k, v) # (k', v') # obj
      else (k', v') # insert_prop k v obj)"

definition set_prop :: "string \<Rightarrow> jsval \<Rightarrow> jsobj \<Rightarrow> jsobj" where
  \<comment> \<open>\<open>obj[k] = v\<close> with \<open>v\<close> a string, on an object made by the literal \<open>{}\<close>: the key
      \<open>__proto__\<close> reaches the setter of \<open>Object.prototype\<close>, which ignores a value
      that is neither an object nor null.\<close>
  "set_prop k v obj =
     (if k = ''__proto__'' then obj
      else if k \<in> set (Object_keys obj) then update_prop k v obj
      else insert_prop k v obj)"

section \<open>Errors and promises\<close>

datatype js_error =
    SystemError string   \<comment> \<open>an error of \<open>fs\<close>, with its \<open>code\<close> (\<open>ENOENT\<close>, \<open>EACCES\<close>, ...)\<close>
  | TypeError            \<comment> \<open>a property read or a method call on \<open>undefined\<close>\<close>
  | HeadersSent          \<comment> \<open>\<open>ERR_HTTP_HEADERS_SENT\<close>: \<open>writeHead\<close> on a reply that has been sent\<close>

text \<open>
  What becomes of a promise whose executor hands a callback to \<open>fs\<close>: the callback calls
  \<open>resolve\<close> or \<open>reject\<close>, or it throws. The callback runs from the event loop, not
  inside the executor, so an exception it throws settles nothing: it is an uncaught
  exception, on which Node.js prints the error and exits (the program installs no
  \<open>uncaughtException\<close> handler).
\<close>

datatype 'a outcome = Resolve 'a | Reject js_error | Uncaught js_error

section \<open>The codec: \<open>getStudents\<close> and \<open>saveStudents\<close>\<close>

fun headers_forEach :: "string list \<Rightarrow> nat \<Rightarrow> string list \<Rightarrow> jsobj \<Rightarrow> js_error + jsobj" where
  \<comment> \<open>\<open>headers.forEach((header, index) => { student[header.trim()] = values[index].trim(); })\<close>;
      \<open>values[index]\<close> beyond the end is \<open>undefined\<close>, whose \<open>.trim\<close> throws.\<close>
  "headers_forEach [] index values student = Inr student"
| "headers_forEach (header # headers) index values student =
     (if index < length values
      then headers_forEach headers (Suc index) values
             (set_prop (trim header) (Str (trim (values ! index))) student)
      else Inl TypeError)"

definition row_to_student :: "string list \<Rightarrow> string \<Rightarrow> js_error + jsobj" where
  "row_to_student headers row = headers_forEach headers 0 (js_split CHR '','' row) []"

fun rows_map :: "string list \<Rightarrow> string list \<Rightarrow> js_error + table" where
  \<comment> \<open>\<open>rows.map(row => ...)\<close>, left to right; the first exception ends it\<close>
  "rows_map headers [] = Inr []"
| "rows_map headers (row # rows) =
     (case row_to_student headers row of
        Inl e \<Rightarrow> Inl e
      | Inr student \<Rightarrow>
          (case rows_map headers rows of
             Inl e \<Rightarrow> Inl e
           | Inr students \<Rightarrow> Inr (student # students)))"

definition parse_csv :: "string \<Rightarrow> js_error + table" where
  \<comment> \<open>the lines of \<open>getStudents\<close> under \<open>// Parse CSV data\<close>; \<open>rows.shift()\<close> of an
      empty array would be \<open>undefined\<close>, but \<open>split\<close> never returns one.\<close>
  "parse_csv data =
     (case js_split CHR ''\<newline>'' (trim data) of
        [] \<Rightarrow> Inl TypeError
      | first # rows \<Rightarrow> rows_map (js_split CHR '','' first) rows)"

definition readFile_callback :: "js_error + string \<Rightarrow> table outcome" where
  \<comment> \<open>the callback \<open>(err, data) => { ... }\<close> of \<open>getStudents\<close>; its argument is what
      \<open>fs.readFile\<close> passes to it: \<open>Inl err\<close> or \<open>Inr data\<close>.\<close>
  "readFile_callback result =
     (case result of
        Inl err \<Rightarrow> (if err = SystemError ''ENOENT'' then Resolve [] else Reject err)
      | Inr data \<Rightarrow>
          (if data = [] then Resolve []
           else (case parse_csv data of
                   Inl e \<Rightarrow> Uncaught e
                 | Inr students \<Rightarrow> Resolve students)))"

definition show_val :: "jsval \<Rightarrow> string" where
  \<comment> \<open>how \<open>join\<close> renders an element: a string as it is, an array by its own \<open>join(',')\<close>\<close>
  "show_val v = (case v of Str s \<Rightarrow> s | Arr xs \<Rightarrow> js_join CHR '','' xs)"

definition csvContent :: "table \<Rightarrow> string" where
  \<comment> \<open>the text that \<open>saveStudents\<close> passes to \<open>fs.writeFile\<close>\<close>
  "csvContent students =
     (case students of
        [] \<Rightarrow> ''name,roll,marks''
      | student0 # _ \<Rightarrow>
          js_join CHR '','' (Object_keys student0) @ CHR ''\<newline>'' #
          js_join CHR ''\<newline>'' (map (\<lambda>student. js_join CHR '','' (map show_val (Object_values student))) students))"

section \<open>The store\<close>

text \<open>
  How a write of \<open>students.csv\<close> fails. \<open>fs.writeFile\<close> and \<open>fs.createWriteStream\<close> open the
  file with the flag \<open>w\<close>, which creates or truncates it. Either the open itself fails
  (permissions, a directory in its place) and the file stays as it was, or the open has
  truncated the file and the write fails (no space, a size limit) after some number of
  characters of the text, which are all the file then holds.
\<close>

datatype write_failure = OpenFails js_error | WriteFails js_error nat

text \<open>
  The file system as the server sees it: the text of \<open>students.csv\<close> (\<open>None\<close> when the
  file does not exist), the error that reading it meets for another reason than its
  absence, the failure that writing it meets, what reading \<open>index.html\<close> gives, and the
  number of times \<open>students.csv\<close> has been opened for reading.
\<close>

record disk =
  content :: "string option"
  read_fault :: "js_error option"
  write_fault :: "write_failure option"
  index_html :: "js_error + string"
  reads :: nat

definition fs_readFile :: "disk \<Rightarrow> (js_error + string) \<times> disk" where
  "fs_readFile d =
     ((case read_fault d of
         Some err \<Rightarrow> Inl err
       | None \<Rightarrow> (case content d of
                    None \<Rightarrow> Inl (SystemError ''ENOENT'')
                  | Some data \<Rightarrow> Inr data)),
      d\<lparr>reads := Suc (reads d)\<rparr>)"

definition fs_writeFile :: "string \<Rightarrow> disk \<Rightarrow> js_error option \<times> disk" where
  "fs_writeFile data d =
     (case write_fault d of
        None \<Rightarrow> (None, d\<lparr>content := Some data\<rparr>)
      | Some (OpenFails err) \<Rightarrow> (Some err, d)
      | Some (WriteFails err n) \<Rightarrow> (Some err, d\<lparr>content := Some (take n data)\<rparr>))"

definition getStudents :: "disk \<Rightarrow> table outcome \<times> disk" where
  "getStudents d = (case fs_readFile d of (result, d') \<Rightarrow> (readFile_callback result, d'))"

definition saveStudents :: "table \<Rightarrow> disk \<Rightarrow> unit outcome \<times> disk" where
  "saveStudents students d =
     (case fs_writeFile (csvContent students) d of
        (Some err, d') \<Rightarrow> (Reject err, d')
      | (None, d') \<Rightarrow> (Resolve (), d'))"

section \<open>The request handlers\<close>

datatype body =
    Empty
  | Text string
  | Html string
  | Csv string
  | JsonTable table                 \<comment> \<open>\<open>JSON.stringify(students)\<close>\<close>
  | JsonMessage string              \<comment> \<open>\<open>{ message }\<close>\<close>
  | JsonError string js_error       \<comment> \<open>\<open>{ message, error: error.message }\<close>\<close>
  | JsonStudent string jsobj        \<comment> \<open>\<open>{ message, student }\<close>\<close>

text \<open>
  A request is answered with a status and a body, or the process dies of an uncaught
  exception before it answers, or it answers and then dies of one.
\<close>

datatype reply = Reply nat body | Crash js_error | ReplyThenCrash nat body js_error

text \<open>
  \<open>http_method\<close> is \<open>req.method.toUpperCase()\<close>, \<open>pathname\<close> and \<open>query_name\<close> are
  \<open>parsedUrl.pathname\<close> and \<open>parsedUrl.query.name\<close> (\<open>None\<close> for \<open>undefined\<close>; an array
  when the URL repeats the parameter), \<open>raw_body\<close> is the text of the request body and
  \<open>form\<close> is \<open>querystring.parse\<close> of it.
\<close>

record request =
  http_method :: string
  pathname :: string
  query_name :: "jsval option"
  raw_body :: string
  form :: jsobj

definition students_handler :: "disk \<Rightarrow> reply \<times> disk" where
  "students_handler d =
     (case getStudents d of
        (Resolve students, d') \<Rightarrow> (Reply 200 (JsonTable students), d')
      | (Reject error, d') \<Rightarrow> (Reply 500 (JsonError ''Error fetching students'' error), d')
      | (Uncaught e, d') \<Rightarrow> (Crash e, d'))"

definition add_continue :: "jsobj \<Rightarrow> table outcome \<Rightarrow> disk \<Rightarrow> reply \<times> disk" where
  \<comment> \<open>the \<open>/add\<close> handler from the point where \<open>await getStudents()\<close> gives control back\<close>
  "add_continue newStudent loaded d =
     (case loaded of
        Resolve students \<Rightarrow>
          (case saveStudents (students @ [newStudent]) d of
             (Resolve u, d') \<Rightarrow>
               (Reply 201 (JsonStudent ''Student added successfully'' newStudent), d')
           | (Reject error, d') \<Rightarrow> (Reply 500 (JsonError ''Error adding student'' error), d')
           | (Uncaught e, d') \<Rightarrow> (Crash e, d'))
      | Reject error \<Rightarrow> (Reply 500 (JsonError ''Error adding student'' error), d)
      | Uncaught e \<Rightarrow> (Crash e, d))"

definition add_handler :: "jsobj \<Rightarrow> disk \<Rightarrow> reply \<times> disk" where
  "add_handler newStudent d =
     (case getStudents d of (loaded, d') \<Rightarrow> add_continue newStudent loaded d')"

definition name_matches :: "jsval \<Rightarrow> jsobj \<Rightarrow> js_error + bool" where
  \<comment> \<open>\<open>s.name.toLowerCase().includes(name.toLowerCase())\<close>: only a string has \<open>toLowerCase\<close>\<close>
  "name_matches name s =
     (case get_prop s ''name'' of
        None \<Rightarrow> Inl TypeError
      | Some (Arr xs) \<Rightarrow> Inl TypeError
      | Some (Str sname) \<Rightarrow>
          (case name of
             Arr ys \<Rightarrow> Inl TypeError
           | Str q \<Rightarrow> Inr (js_includes (toLowerCase sname) (toLowerCase q))))"

fun students_filter :: "jsval \<Rightarrow> table \<Rightarrow> js_error + table" where
  \<comment> \<open>\<open>students.filter(s => ...)\<close>, left to right; the first exception ends it\<close>
  "students_filter name [] = Inr []"
| "students_filter name (s # students) =
     (case name_matches name s of
        Inl e \<Rightarrow> Inl e
      | Inr keep \<Rightarrow>
          (case students_filter name students of
             Inl e \<Rightarrow> Inl e
           | Inr results \<Rightarrow> Inr (if keep then s # results else results)))"

definition search_handler :: "jsval option \<Rightarrow> disk \<Rightarrow> reply \<times> disk" where
  \<comment> \<open>\<open>!name\<close> holds of \<open>undefined\<close> and of the empty string; an array is truthy.\<close>
  "search_handler query d =
     (case query of
        None \<Rightarrow> (Reply 400 (JsonMessage ''Name query parameter is required''), d)
      | Some name \<Rightarrow>
          (if name = Str [] then (Reply 400 (JsonMessage ''Name query parameter is required''), d)
           else (case getStudents d of
                   (Resolve students, d') \<Rightarrow>
                     (case students_filter name students of
                        Inr results \<Rightarrow> (Reply 200 (JsonTable results), d')
                      | Inl error \<Rightarrow>
                          (Reply 500 (JsonError ''Error searching students'' error), d'))
                 | (Reject error, d') \<Rightarrow>
                     (Reply 500 (JsonError ''Error searching students'' error), d')
                 | (Uncaught e, d') \<Rightarrow> (Crash e, d'))))"

definition export_handler :: "disk \<Rightarrow> reply \<times> disk" where
  \<comment> \<open>\<open>fs.createReadStream(csvFilePath).pipe(res)\<close>: the stream has no \<open>error\<close> listener, so
      an error of the stream is thrown by its emitter and nothing catches it.\<close>
  "export_handler d =
     (case fs_readFile d of
        (Inr data, d') \<Rightarrow> (Reply 200 (Csv data), d')
      | (Inl err, d') \<Rightarrow> (Crash err, d'))"

definition upload_handler :: "string \<Rightarrow> disk \<Rightarrow> reply \<times> disk" where
  \<comment> \<open>\<open>req.pipe(fs.createWriteStream(csvFilePath))\<close>. The \<open>end\<close> listener of the request
      replies 200 without waiting for the write stream. When the stream then reports an
      error, its \<open>error\<close> listener calls \<open>writeHead(500)\<close> on a reply that has been sent,
      which throws, and nothing catches it.\<close>
  "upload_handler data d =
     (case fs_writeFile data d of
        (None, d') \<Rightarrow> (Reply 200 (JsonMessage ''File uploaded successfully''), d')
      | (Some error, d') \<Rightarrow>
          (ReplyThenCrash 200 (JsonMessage ''File uploaded successfully'') HeadersSent, d'))"

definition index_handler :: "disk \<Rightarrow> reply \<times> disk" where
  "index_handler d =
     (case index_html d of
        Inl err \<Rightarrow> (Reply 500 (Text ''Error loading index.html''), d)
      | Inr data \<Rightarrow> (Reply 200 (Html data), d))"

definition server :: "request \<Rightarrow> disk \<Rightarrow> reply \<times> disk" where
  "server req d =
     (if http_method req = ''OPTIONS'' then (Reply 204 Empty, d)
      else if pathname req = ''/'' \<and> http_method req = ''GET'' then index_handler d
      else if pathname req = ''/students'' \<and> http_method req = ''GET'' then students_handler d
      else if pathname req = ''/add'' \<and> http_method req = ''POST'' then add_handler (form req) d
      else if pathname req = ''/search'' \<and> http_method req = ''GET''
        then search_handler (query_name req) d
      else if pathname req = ''/export'' \<and> http_method req = ''GET'' then export_handler d
      else if pathname req = ''/upload'' \<and> http_method req = ''POST''
        then upload_handler (raw_body req) d
      else (Reply 404 (JsonMessage ''Route not found''), d))"


section \<open>Notions of the specification\<close>

fun is_string :: "jsval \<Rightarrow> bool" where
  "is_string (Str s) = True"
| "is_string (Arr xs) = False"

definition all_strings :: "jsobj \<Rightarrow> bool" where
  "all_strings obj = list_all (\<lambda>p. is_string (snd p)) obj"

definition spec_name_contains :: "string \<Rightarrow> jsobj \<Rightarrow> bool" where
  \<comment> \<open>The specification's match: the record's \<open>name\<close> field contains the query as a
      substring, letter case ignored.\<close>
  "spec_name_contains q s =
     (case get_prop s ''name'' of
        Some (Str sname) \<Rightarrow> sublist (toLowerCase q) (toLowerCase sname)
      | _ \<Rightarrow> False)"

fun js_ordered :: "string list \<Rightarrow> bool" where
  \<comment> \<open>the order in which an object lists its keys: no key that is an array index comes
      after a key that is not one, or after an array index that is not smaller\<close>
  "js_ordered [] = True"
| "js_ordered (k # ks) =
     ((\<forall>k'\<in>set ks. is_array_index k' \<longrightarrow> is_array_index k \<and> digits_val k < digits_val k')
      \<and> js_ordered ks)"

definition plain :: "string \<Rightarrow> bool" where
  \<comment> \<open>no comma, no newline, no whitespace at either end\<close>
  "plain s = (CHR '','' \<notin> set s \<and> CHR ''\<newline>'' \<notin> set s \<and> trim s = s)"

definition plain_record :: "jsobj \<Rightarrow> bool" where
  \<comment> \<open>an object (distinct keys in the order of \<open>Object.keys\<close>) with plain column names,
      none of them \<open>__proto__\<close>, and plain strings as values\<close>
  "plain_record r =
     (distinct (Object_keys r) \<and> js_ordered (Object_keys r)
      \<and> (\<forall>k\<in>set (Object_keys r). plain k \<and> k \<noteq> ''__proto__'')
      \<and> (\<forall>v\<in>set (Object_values r). is_string v \<and> plain (show_val v)))"

definition row_text :: "jsobj \<Rightarrow> string" where
  \<comment> \<open>the line that \<open>saveStudents\<close> writes for a record\<close>
  "row_text student = js_join CHR '','' (map show_val (Object_values student))"

section \<open>Splitting, joining and trimming\<close>

lemma js_join_Cons: "ys \<noteq> [] \<Longrightarrow> js_join c (x # ys) = x @ c # js_join c ys"
  by (cases ys) simp_all

lemma js_join_snoc: "xs \<noteq> [] \<Longrightarrow> js_join c (xs @ [y]) = js_join c xs @ c # y"
  by (induction c xs rule: js_join.induct) simp_all

lemma js_split_not_Nil [simp]: "js_split c s \<noteq> []"
  by (induction s) (simp_all split: list.splits)

lemma js_split_no_sep: "c \<notin> set s \<Longrightarrow> js_split c s = [s]"
  by (induction s) auto

lemma js_split_append: "c \<notin> set x \<Longrightarrow> js_split c (x @ c # s) = x # js_split c s"
  by (induction x) auto

lemma js_split_join:
  "xs \<noteq> [] \<Longrightarrow> \<forall>x\<in>set xs. c \<notin> set x \<Longrightarrow> js_split c (js_join c xs) = xs"
  by (induction c xs rule: js_join.induct) (simp_all add: js_split_no_sep js_split_append)

lemma set_js_join: "set (js_join c xs) \<subseteq> insert c (\<Union>x\<in>set xs. set x)"
  by (induction c xs rule: js_join.induct) auto

lemma notin_js_join:
  "a \<noteq> c \<Longrightarrow> \<forall>x\<in>set xs. a \<notin> set x \<Longrightarrow> a \<notin> set (js_join c xs)"
  using set_js_join [of c xs] by auto

lemma trim_Nil [simp]: "trim [] = []"
  by (simp add: trim_def)

lemma length_trim: "length (trim s) \<le> length (dropWhile is_ws s)"
proof -
  have "length (trim s) = length (dropWhile is_ws (rev (dropWhile is_ws s)))"
    by (simp add: trim_def)
  also have "\<dots> \<le> length (rev (dropWhile is_ws s))" by (rule length_dropWhile_le)
  finally show ?thesis by simp
qed

lemma trim_id_hd: "trim s = s \<Longrightarrow> s \<noteq> [] \<Longrightarrow> \<not> is_ws (hd s)"
proof
  assume a: "trim s = s" "s \<noteq> []" "is_ws (hd s)"
  then obtain x xs where s: "s = x # xs" by (cases s) auto
  with a have "length (dropWhile is_ws s) \<le> length xs"
    by (simp add: length_dropWhile_le)
  with length_trim [of s] a(1) s show False by simp
qed

lemma trim_id: "s = [] \<or> (\<not> is_ws (hd s) \<and> \<not> is_ws (last s)) \<Longrightarrow> trim s = s"
proof (cases s)
  case Nil
  then show ?thesis by simp
next
  case (Cons x xs)
  assume "s = [] \<or> (\<not> is_ws (hd s) \<and> \<not> is_ws (last s))"
  with Cons have h: "\<not> is_ws (hd s)" and l: "\<not> is_ws (last s)" and n: "s \<noteq> []" by auto
  have 1: "dropWhile is_ws s = s" using h Cons by simp
  have "hd (rev s) = last s" using n by (simp add: hd_rev)
  then have 2: "dropWhile is_ws (rev s) = rev s"
    using l n by (simp add: dropWhile_eq_self_iff)
  show ?thesis by (simp add: trim_def 1 2)
qed

section \<open>Loading\<close>

lemma getStudents_eq:
  "getStudents d = (fst (getStudents d), d\<lparr>reads := Suc (reads d)\<rparr>)"
  by (simp add: getStudents_def fs_readFile_def)

lemma getStudents_reads [simp]:
  "fst (getStudents (d\<lparr>reads := n\<rparr>)) = fst (getStudents d)"
  by (simp add: getStudents_def fs_readFile_def split: option.splits)

text \<open>
  \<^bold>\<open>C2.\<close> \<open>getStudents\<close> resolves to the empty table when \<open>students.csv\<close> does not exist
  and when it exists and is empty, and it rejects exactly when reading fails with an
  error other than \<open>ENOENT\<close>, with that error; \<open>/students\<close> answers a missing file with
  200 and the empty list.
\<close>

theorem getStudents_missing_or_empty:
  "fst (getStudents (d\<lparr>read_fault := None, content := None\<rparr>)) = Resolve []
   \<and> fst (getStudents (d\<lparr>read_fault := None, content := Some []\<rparr>)) = Resolve []
   \<and> (fst (getStudents d) = Reject err
        \<longleftrightarrow> fst (fs_readFile d) = Inl err \<and> err \<noteq> SystemError ''ENOENT'')
   \<and> fst (students_handler (d\<lparr>read_fault := None, content := None\<rparr>)) = Reply 200 (JsonTable [])"
  by (auto simp: students_handler_def getStudents_def fs_readFile_def readFile_callback_def
           split: option.splits sum.splits)

theorem getStudents_missing_or_empty_witness:
  "fst (getStudents \<lparr>content = None, read_fault = None, write_fault = None,
                      index_html = Inr [], reads = 0\<rparr>) = Resolve []
   \<and> fst (getStudents \<lparr>content = Some [], read_fault = None, write_fault = None,
                      index_html = Inr [], reads = 0\<rparr>) = Resolve []
   \<and> fst (getStudents \<lparr>content = None, read_fault = Some (SystemError ''EACCES''),
                      write_fault = None, index_html = Inr [], reads = 0\<rparr>)
       = Reject (SystemError ''EACCES'')
   \<and> fst (students_handler \<lparr>content = None, read_fault = None, write_fault = None,
                      index_html = Inr [], reads = 0\<rparr>) = Reply 200 (JsonTable [])"
  using getStudents_missing_or_empty
          [of "\<lparr>content = None, read_fault = None, write_fault = None,
                 index_html = Inr [], reads = 0\<rparr>"
              "SystemError ''EACCES''"]
        getStudents_missing_or_empty
          [of "\<lparr>content = None, read_fault = Some (SystemError ''EACCES''),
                 write_fault = None, index_html = Inr [], reads = 0\<rparr>"
              "SystemError ''EACCES''"]
  by (simp add: fs_readFile_def)

subsection \<open>Every loaded field is a string\<close>

lemma update_prop_strings:
  "all_strings obj \<Longrightarrow> all_strings (update_prop k (Str v) obj)"
  by (induction k "Str v" obj rule: update_prop.induct) (simp_all add: all_strings_def)

lemma insert_prop_strings:
  "all_strings obj \<Longrightarrow> all_strings (insert_prop k (Str v) obj)"
  by (induction k "Str v" obj rule: insert_prop.induct) (simp_all add: all_strings_def)

lemma set_prop_strings:
  "all_strings obj \<Longrightarrow> all_strings (set_prop k (Str v) obj)"
  by (simp add: set_prop_def update_prop_strings insert_prop_strings)

lemma headers_forEach_strings:
  "headers_forEach headers i vals obj = Inr student \<Longrightarrow> all_strings obj \<Longrightarrow> all_strings student"
proof (induction headers i vals obj rule: headers_forEach.induct)
  case (1 index "values" student)
  then show ?case by simp
next
  case (2 header headers index "values" obj)
  show ?case
  proof (cases "index < length values")
    case True
    with 2 show ?thesis by (simp add: set_prop_strings)
  next
    case False
    with 2 show ?thesis by simp
  qed
qed

lemma row_to_student_strings: "row_to_student headers row = Inr student \<Longrightarrow> all_strings student"
  unfolding row_to_student_def by (erule headers_forEach_strings) (simp add: all_strings_def)

lemma rows_map_strings:
  "rows_map headers rows = Inr t \<Longrightarrow> list_all all_strings t"
proof (induction rows arbitrary: t)
  case Nil
  then show ?case by simp
next
  case (Cons row rows)
  from Cons.prems obtain student students where
    "row_to_student headers row = Inr student" "rows_map headers rows = Inr students"
    "t = student # students"
    by (auto split: sum.splits)
  then show ?case using Cons.IH row_to_student_strings by simp
qed

lemma parse_csv_strings: "parse_csv data = Inr t \<Longrightarrow> list_all all_strings t"
  unfolding parse_csv_def
  by (cases "js_split CHR ''\<newline>'' (trim data)") (simp_all add: rows_map_strings)

lemma readFile_callback_strings: "readFile_callback result = Resolve t \<Longrightarrow> list_all all_strings t"
  unfolding readFile_callback_def
  by (cases result) (auto split: if_splits sum.splits dest: parse_csv_strings)

lemma getStudents_strings: "fst (getStudents d) = Resolve t \<Longrightarrow> list_all all_strings t"
  by (rule readFile_callback_strings [of "fst (fs_readFile d)"])
     (simp add: getStudents_def split: prod.splits)

lemma get_prop_string:
  "all_strings s \<Longrightarrow> get_prop s k = Some v \<Longrightarrow> is_string v"
  unfolding get_prop_def all_strings_def by (auto simp: list_all_iff dest!: map_of_SomeD)

subsection \<open>A row shorter than the header\<close>

lemma headers_forEach_error: "headers_forEach headers i vals obj = Inl e \<Longrightarrow> e = TypeError"
  by (induction headers i vals obj rule: headers_forEach.induct) (simp_all split: if_splits)

lemma headers_forEach_short:
  "i \<le> length vals \<Longrightarrow> length vals < i + length headers \<Longrightarrow>
     headers_forEach headers i vals obj = Inl TypeError"
  by (induction headers i vals obj rule: headers_forEach.induct) simp_all

lemma rows_map_error: "rows_map headers rows = Inl e \<Longrightarrow> e = TypeError"
proof (induction rows)
  case Nil
  then show ?case by simp
next
  case (Cons row rows)
  then show ?case
    by (cases "row_to_student headers row"; cases "rows_map headers rows")
       (simp_all add: row_to_student_def headers_forEach_error)
qed

lemma rows_map_short:
  "row \<in> set rows \<Longrightarrow> length (js_split CHR '','' row) < length headers \<Longrightarrow>
     rows_map headers rows = Inl TypeError"
proof (induction rows)
  case Nil
  then show ?case by simp
next
  case (Cons a rows)
  show ?case
  proof (cases "row_to_student headers a")
    case (Inl e)
    then show ?thesis by (simp add: row_to_student_def headers_forEach_error)
  next
    case (Inr student)
    then have "row \<noteq> a"
      using Cons.prems(2) by (auto simp: row_to_student_def headers_forEach_short)
    then have "rows_map headers rows = Inl TypeError" using Cons by simp
    then show ?thesis using Inr by simp
  qed
qed

text \<open>
  \<^bold>\<open>C5.\<close> The code at a file with a data row that has fewer fields than the header:
  \<open>values[index]\<close> is \<open>undefined\<close> at the first missing column and \<open>.trim()\<close> throws
  inside the \<open>readFile\<close> callback, so \<open>getStudents\<close> produces no table at all: the
  promise is never settled and the exception is uncaught.
\<close>

theorem short_row_uncaught:
  assumes "read_fault d = None" and "content d = Some data" and "data \<noteq> []"
    and "js_split CHR ''\<newline>'' (trim data) = first # rows"
    and "row \<in> set rows"
    and "length (js_split CHR '','' row) < length (js_split CHR '','' first)"
  shows "fst (getStudents d) = Uncaught TypeError"
proof -
  have "parse_csv data = Inl TypeError"
    using assms(4) rows_map_short [OF assms(5,6)] by (simp add: parse_csv_def)
  then show ?thesis
    using assms(1,2,3) by (simp add: getStudents_def fs_readFile_def readFile_callback_def)
qed

theorem short_row_uncaught_witness:
  "fst (getStudents \<lparr>content = Some ''name,roll\<newline>A'', read_fault = None, write_fault = None,
                      index_html = Inr [], reads = 0\<rparr>) = Uncaught TypeError"
proof -
  have s: "js_split CHR ''\<newline>'' (trim ''name,roll\<newline>A'') = [''name,roll'', ''A'']"
    by (simp add: trim_def is_ws_def)
  show ?thesis
    using short_row_uncaught [of _ "''name,roll\<newline>A''" "''name,roll''" "[''A'']" "''A''"] s
    by simp
qed

section \<open>Saving\<close>

text \<open>
  \<^bold>\<open>C7.\<close> \<open>saveStudents\<close> of the empty array writes the text \<open>name,roll,marks\<close> and nothing
  else to \<open>students.csv\<close>.
\<close>

theorem saveStudents_empty:
  "write_fault d = None \<Longrightarrow>
     saveStudents [] d = (Resolve (), d\<lparr>content := Some ''name,roll,marks''\<rparr>)"
  by (simp add: saveStudents_def fs_writeFile_def csvContent_def)

theorem saveStudents_empty_witness:
  "saveStudents [] \<lparr>content = Some ''name\<newline>A'', read_fault = None, write_fault = None,
                     index_html = Inr [], reads = 0\<rparr>
   = (Resolve (), \<lparr>content = Some ''name,roll,marks'', read_fault = None, write_fault = None,
                    index_html = Inr [], reads = 0\<rparr>)"
  using saveStudents_empty
          [of "\<lparr>content = Some ''name\<newline>A'', read_fault = None, write_fault = None,
                 index_html = Inr [], reads = 0\<rparr>"]
  by simp

section \<open>Search\<close>

lemma js_includes_sublist: "js_includes s q = sublist q s"
  by (induction s) (simp_all add: sublist_Cons_right)

lemma students_filter_named:
  "list_all (\<lambda>s. \<exists>x. get_prop s ''name'' = Some (Str x)) t \<Longrightarrow>
     students_filter (Str q) t = Inr (filter (spec_name_contains q) t)"
proof (induction t)
  case Nil
  then show ?case by simp
next
  case (Cons s t)
  then obtain x where "get_prop s ''name'' = Some (Str x)" by auto
  with Cons show ?case
    by (simp add: name_matches_def spec_name_contains_def js_includes_sublist)
qed

lemma name_matches_error: "name_matches name s = Inl e \<Longrightarrow> e = TypeError"
  unfolding name_matches_def by (simp split: option.splits jsval.splits)

lemma students_filter_error: "students_filter name t = Inl e \<Longrightarrow> e = TypeError"
proof (induction t)
  case Nil
  then show ?case by simp
next
  case (Cons s t)
  then show ?case
    by (cases "name_matches name s"; cases "students_filter name t")
       (simp_all add: name_matches_error)
qed

lemma students_filter_nameless:
  "s \<in> set t \<Longrightarrow> get_prop s ''name'' = None \<Longrightarrow> \<exists>e. students_filter name t = Inl e"
proof (induction t)
  case Nil
  then show ?case by simp
next
  case (Cons a t)
  show ?case
  proof (cases "name_matches name a")
    case (Inl e)
    then show ?thesis by simp
  next
    case (Inr keep)
    then have "s \<noteq> a" using Cons.prems(2) by (auto simp: name_matches_def)
    then have "\<exists>e. students_filter name t = Inl e" using Cons by simp
    then show ?thesis using Inr by auto
  qed
qed

lemma search_without_name:
  "search_handler None d = (Reply 400 (JsonMessage ''Name query parameter is required''), d)"
  by (simp add: search_handler_def)

lemma search_named_table:
  assumes "fst (getStudents d) = Resolve t"
    and "\<forall>s\<in>set t. get_prop s ''name'' \<noteq> None"
    and "q \<noteq> []"
  shows "search_handler (Some (Str q)) d =
           (Reply 200 (JsonTable (filter (spec_name_contains q) t)), d\<lparr>reads := Suc (reads d)\<rparr>)"
proof -
  have "\<exists>x. get_prop s ''name'' = Some (Str x)" if "s \<in> set t" for s
  proof -
    from that assms(2) obtain v where v: "get_prop s ''name'' = Some v" by auto
    have "all_strings s"
      using getStudents_strings [OF assms(1)] that by (simp add: list_all_iff)
    then have "is_string v" using v by (rule get_prop_string)
    then show ?thesis using v by (cases v) simp_all
  qed
  then have "list_all (\<lambda>s. \<exists>x. get_prop s ''name'' = Some (Str x)) t"
    by (simp add: list_all_iff)
  then have f: "students_filter (Str q) t = Inr (filter (spec_name_contains q) t)"
    by (rule students_filter_named)
  have g: "getStudents d = (Resolve t, d\<lparr>reads := Suc (reads d)\<rparr>)"
    using assms(1) getStudents_eq [of d] by simp
  show ?thesis using assms(3) by (simp add: search_handler_def f g)
qed

text \<open>
  \<^bold>\<open>C4\<close>, as the code has it. Without the \<open>name\<close> parameter \<open>/search\<close> replies 400 and
  leaves the store untouched, whatever its state: the file is not read. With a \<open>name\<close>
  given once and not empty, when the table loads and every record of it has a \<open>name\<close>
  field, \<open>/search\<close> replies 200 with exactly the records whose name contains the query,
  letter case ignored, in their order (so with the empty list when none does).
\<close>

theorem search_named:
  "search_handler None d = (Reply 400 (JsonMessage ''Name query parameter is required''), d)
   \<and> (fst (getStudents d) = Resolve t \<and> (\<forall>s\<in>set t. get_prop s ''name'' \<noteq> None) \<and> q \<noteq> []
        \<longrightarrow> search_handler (Some (Str q)) d =
              (Reply 200 (JsonTable (filter (spec_name_contains q) t)),
               d\<lparr>reads := Suc (reads d)\<rparr>))"
  using search_without_name [of d] search_named_table [of d t q] by blast

text \<open>
  \<^bold>\<open>C10.\<close> When some record of the loaded table has no \<open>name\<close> field, \<open>/search\<close> with a
  non-empty \<open>name\<close> replies 500 with the message \<open>Error searching students\<close>: no record
  is returned.
\<close>

theorem search_nameless:
  assumes "fst (getStudents d) = Resolve t"
    and "\<exists>s\<in>set t. get_prop s ''name'' = None"
    and "q \<noteq> []"
  shows "search_handler (Some (Str q)) d =
           (Reply 500 (JsonError ''Error searching students'' TypeError),
            d\<lparr>reads := Suc (reads d)\<rparr>)"
proof -
  obtain e where "students_filter (Str q) t = Inl e"
    using assms(2) students_filter_nameless by blast
  then have f: "students_filter (Str q) t = Inl TypeError"
    using students_filter_error by blast
  have g: "getStudents d = (Resolve t, d\<lparr>reads := Suc (reads d)\<rparr>)"
    using assms(1) getStudents_eq [of d] by simp
  show ?thesis using assms(3) by (simp add: search_handler_def f g)
qed

theorem search_nameless_witness:
  "search_handler (Some (Str ''a''))
     \<lparr>content = Some ''roll\<newline>1'', read_fault = None, write_fault = None,
      index_html = Inr [], reads = 0\<rparr>
   = (Reply 500 (JsonError ''Error searching students'' TypeError),
      \<lparr>content = Some ''roll\<newline>1'', read_fault = None, write_fault = None,
       index_html = Inr [], reads = 1\<rparr>)"
proof -
  let ?d = "\<lparr>content = Some ''roll\<newline>1'', read_fault = None, write_fault = None,
             index_html = Inr [], reads = 0\<rparr>"
  have l: "fst (getStudents ?d) = Resolve [[(''roll'', Str ''1'')]]" by code_simp
  have n: "\<exists>s\<in>set [[(''roll'', Str ''1'')]]. get_prop s ''name'' = None"
    by (simp add: get_prop_def)
  show ?thesis using search_nameless [OF l n, of "''a''"] by simp
qed

text \<open>
  The claim \<^bold>\<open>C4\<close> as the specification words it, for every loaded table, fails at the
  file \<open>roll\<newline>1\<close>: the table loads, no record of it has a name that contains \<open>a\<close>, and
  the reply is not 200 with the empty list but 500.
\<close>

theorem search_unguarded_counterexample:
  "fst (getStudents \<lparr>content = Some ''roll\<newline>1'', read_fault = None, write_fault = None,
                      index_html = Inr [], reads = 0\<rparr>) = Resolve [[(''roll'', Str ''1'')]]
   \<and> fst (search_handler (Some (Str ''a''))
            \<lparr>content = Some ''roll\<newline>1'', read_fault = None, write_fault = None,
             index_html = Inr [], reads = 0\<rparr>)
       \<noteq> Reply 200 (JsonTable (filter (spec_name_contains ''a'') [[(''roll'', Str ''1'')]]))
   \<and> fst (search_handler (Some (Str ''a''))
            \<lparr>content = Some ''roll\<newline>1'', read_fault = None, write_fault = None,
             index_html = Inr [], reads = 0\<rparr>)
       = Reply 500 (JsonError ''Error searching students'' TypeError)"
  by code_simp

theorem search_named_witness:
  "search_handler (Some (Str ''ali''))
     \<lparr>content = Some ''name\<newline>Alice\<newline>bob'', read_fault = None, write_fault = None,
      index_html = Inr [], reads = 0\<rparr>
   = (Reply 200 (JsonTable [[(''name'', Str ''Alice'')]]),
      \<lparr>content = Some ''name\<newline>Alice\<newline>bob'', read_fault = None, write_fault = None,
       index_html = Inr [], reads = 1\<rparr>)
   \<and> search_handler (Some (Str ''z''))
     \<lparr>content = Some ''name\<newline>Alice\<newline>bob'', read_fault = None, write_fault = None,
      index_html = Inr [], reads = 0\<rparr>
   = (Reply 200 (JsonTable []),
      \<lparr>content = Some ''name\<newline>Alice\<newline>bob'', read_fault = None, write_fault = None,
       index_html = Inr [], reads = 1\<rparr>)
   \<and> search_handler None
     \<lparr>content = Some ''name\<newline>Alice\<newline>bob'', read_fault = None, write_fault = None,
      index_html = Inr [], reads = 0\<rparr>
   = (Reply 400 (JsonMessage ''Name query parameter is required''),
      \<lparr>content = Some ''name\<newline>Alice\<newline>bob'', read_fault = None, write_fault = None,
       index_html = Inr [], reads = 0\<rparr>)"
proof -
  let ?d = "\<lparr>content = Some ''name\<newline>Alice\<newline>bob'', read_fault = None, write_fault = None,
             index_html = Inr [], reads = 0\<rparr>"
  let ?t = "[[(''name'', Str ''Alice'')], [(''name'', Str ''bob'')]]"
  have l: "fst (getStudents ?d) = Resolve ?t" by code_simp
  have n: "\<forall>s\<in>set ?t. get_prop s ''name'' \<noteq> None" by (simp add: get_prop_def)
  have a: "filter (spec_name_contains ''ali'') ?t = [[(''name'', Str ''Alice'')]]" by code_simp
  have z: "filter (spec_name_contains ''z'') ?t = []" by code_simp
  show ?thesis
    using search_named [of ?d ?t "''ali''"] search_named [of ?d ?t "''z''"] l n a z by simp
qed

text \<open>
  A \<open>name\<close> given twice reaches the handler as an array, which has no \<open>toLowerCase\<close>: on a
  table of named records the reply is 500.
\<close>

lemma search_repeated_name:
  "fst (search_handler (Some (Arr [''ali'', ''bob'']))
          \<lparr>content = Some ''name\<newline>Alice\<newline>bob'', read_fault = None, write_fault = None,
           index_html = Inr [], reads = 0\<rparr>)
   = Reply 500 (JsonError ''Error searching students'' TypeError)"
  by code_simp

section \<open>Add\<close>

lemma csvContent_snoc:
  assumes "t \<noteq> []"
  shows "csvContent (t @ [r]) = csvContent t @ CHR ''\<newline>'' # row_text r"
proof -
  from assms obtain s0 rest where t: "t = s0 # rest" by (cases t) auto
  have "map f (s0 # rest) \<noteq> []" for f :: "jsobj \<Rightarrow> string" by simp
  then show ?thesis
    unfolding t csvContent_def row_text_def
    using js_join_snoc [of "map _ (s0 # rest)"] by simp
qed

lemma csvContent_single:
  "csvContent [r] = js_join CHR '','' (Object_keys r) @ CHR ''\<newline>'' # row_text r"
  by (simp add: csvContent_def row_text_def)

lemma add_handler_saved:
  assumes "fst (getStudents d) = Resolve t" and "write_fault d = None"
  shows "add_handler r d =
           (Reply 201 (JsonStudent ''Student added successfully'' r),
            d\<lparr>reads := Suc (reads d), content := Some (csvContent (t @ [r]))\<rparr>)"
proof -
  have g: "getStudents d = (Resolve t, d\<lparr>reads := Suc (reads d)\<rparr>)"
    using assms(1) getStudents_eq [of d] by simp
  show ?thesis
    using assms(2)
    by (simp add: add_handler_def add_continue_def g saveStudents_def fs_writeFile_def)
qed



section \<open>Export and import\<close>

text \<open>
  Where \<open>students.csv\<close> exists and can be read and written: \<open>/export\<close> replies with the
  text of the file as it is, \<open>/upload\<close> of that text replies 200 and stores it as it is,
  and \<open>/students\<close> answers afterwards as it did before. \<open>/upload\<close> stores any text
  whatever, unexamined.
\<close>

lemma export_then_import:
  assumes "content d = Some data" and "read_fault d = None" and "write_fault d = None"
  shows "export_handler d = (Reply 200 (Csv data), d\<lparr>reads := Suc (reads d)\<rparr>)
         \<and> upload_handler data (d\<lparr>reads := Suc (reads d)\<rparr>)
             = (Reply 200 (JsonMessage ''File uploaded successfully''),
                d\<lparr>reads := Suc (reads d), content := Some data\<rparr>)
         \<and> fst (students_handler (d\<lparr>reads := Suc (reads d), content := Some data\<rparr>))
             = fst (students_handler d)
         \<and> upload_handler anything d
             = (Reply 200 (JsonMessage ''File uploaded successfully''),
                d\<lparr>content := Some anything\<rparr>)"
proof -
  have e: "export_handler d = (Reply 200 (Csv data), d\<lparr>reads := Suc (reads d)\<rparr>)"
    using assms(1,2) by (simp add: export_handler_def fs_readFile_def)
  have u: "upload_handler x d' = (Reply 200 (JsonMessage ''File uploaded successfully''),
                                  d'\<lparr>content := Some x\<rparr>)"
    if "write_fault d' = None" for x d'
    using that by (simp add: upload_handler_def fs_writeFile_def)
  have "fst (getStudents (d\<lparr>reads := Suc (reads d), content := Some data\<rparr>))
          = fst (getStudents d)"
    using assms(1,2) by (simp add: getStudents_def fs_readFile_def)
  then have l: "fst (students_handler (d\<lparr>reads := Suc (reads d), content := Some data\<rparr>))
                  = fst (students_handler d)"
    using getStudents_eq [of d]
      getStudents_eq [of "d\<lparr>reads := Suc (reads d), content := Some data\<rparr>"]
    by (cases "fst (getStudents d)") (simp_all add: students_handler_def)
  show ?thesis using e l u [of d] u [of "d\<lparr>reads := Suc (reads d)\<rparr>"] assms(3) by simp
qed

text \<open>
  An upload whose write fails after the open: the client is told 200, the file is left
  with what was written before the failure (here nothing), and the process dies.
\<close>

lemma upload_write_fails:
  "upload_handler ''name\<newline>A''
     \<lparr>content = Some ''name\<newline>B'', read_fault = None,
      write_fault = Some (WriteFails (SystemError ''EFBIG'') 0), index_html = Inr [], reads = 0\<rparr>
   = (ReplyThenCrash 200 (JsonMessage ''File uploaded successfully'') HeadersSent,
      \<lparr>content = Some [], read_fault = None,
       write_fault = Some (WriteFails (SystemError ''EFBIG'') 0), index_html = Inr [], reads = 0\<rparr>)"
  by (simp add: upload_handler_def fs_writeFile_def)

text \<open>
  \<^bold>\<open>C8.\<close> The code at the file state in which \<open>students.csv\<close> does not exist: \<open>/students\<close>
  answers 200 with the empty table, and \<open>/export\<close> sends no bytes that could be imported
  again: the read stream fails with \<open>ENOENT\<close> and the process dies without a reply.
\<close>

theorem export_import_missing_file:
  "fst (students_handler \<lparr>content = None, read_fault = None, write_fault = None,
                           index_html = Inr [], reads = 0\<rparr>) = Reply 200 (JsonTable [])
   \<and> export_handler \<lparr>content = None, read_fault = None, write_fault = None,
                      index_html = Inr [], reads = 0\<rparr>
     = (Crash (SystemError ''ENOENT''),
        \<lparr>content = None, read_fault = None, write_fault = None, index_html = Inr [], reads = 1\<rparr>)"
  by (simp add: students_handler_def getStudents_def readFile_callback_def export_handler_def
        fs_readFile_def)

text \<open>
  \<^bold>\<open>C6.\<close> The code at \<open>GET /export\<close> when \<open>students.csv\<close> does not exist: the read stream
  fails with \<open>ENOENT\<close>, nothing listens for its \<open>error\<close> event, and the process dies
  without a reply.
\<close>

theorem export_missing_file_crashes:
  "server \<lparr>http_method = ''GET'', pathname = ''/export'', query_name = None, raw_body = [], form = []\<rparr>
          \<lparr>content = None, read_fault = None, write_fault = None, index_html = Inr [], reads = 0\<rparr>
   = (Crash (SystemError ''ENOENT''),
      \<lparr>content = None, read_fault = None, write_fault = None, index_html = Inr [], reads = 1\<rparr>)"
  by (simp add: server_def export_handler_def fs_readFile_def)

section \<open>Saving and loading again\<close>

lemma js_ordered_snoc:
  "js_ordered (ks @ [k]) \<Longrightarrow> k' \<in> set ks \<Longrightarrow> is_array_index k \<Longrightarrow>
     is_array_index k' \<and> digits_val k' < digits_val k"
  by (induction ks) auto

lemma js_ordered_append: "js_ordered (ks @ ks') \<Longrightarrow> js_ordered ks"
  by (induction ks) auto

lemma insert_prop_end:
  "\<forall>p\<in>set obj. is_array_index k \<longrightarrow> is_array_index (fst p) \<and> digits_val (fst p) < digits_val k
     \<Longrightarrow> insert_prop k v obj = obj @ [(k, v)]"
  by (induction k v obj rule: insert_prop.induct) auto

lemma set_prop_end:
  assumes "k \<noteq> ''__proto__''" and "k \<notin> set (Object_keys obj)"
    and "js_ordered (Object_keys obj @ [k])"
  shows "set_prop k v obj = obj @ [(k, v)]"
proof -
  have "\<forall>p\<in>set obj. is_array_index k \<longrightarrow>
          is_array_index (fst p) \<and> digits_val (fst p) < digits_val k"
    using js_ordered_snoc [OF assms(3)] by (auto simp: Object_keys_def)
  then show ?thesis using assms(1,2) by (simp add: set_prop_def insert_prop_end)
qed

lemma headers_forEach_build:
  assumes "length vals = i + length ks"
    and "distinct (Object_keys obj @ ks)" and "js_ordered (Object_keys obj @ ks)"
    and "\<forall>k\<in>set ks. trim k = k \<and> k \<noteq> ''__proto__''"
    and "\<forall>v\<in>set vals. trim v = v"
  shows "headers_forEach ks i vals obj = Inr (obj @ zip ks (map Str (drop i vals)))"
  using assms
proof (induction ks i vals obj rule: headers_forEach.induct)
  case (1 index "values" student)
  then show ?case by simp
next
  case (2 header headers index "values" student)
  let ?v = "values ! index"
  have i: "index < length values" using "2.prems"(1) by simp
  have tv: "trim ?v = ?v" using "2.prems"(5) i by simp
  have th: "trim header = header" "header \<noteq> ''__proto__''" using "2.prems"(4) by simp_all
  have o: "js_ordered (Object_keys student @ [header])"
    using "2.prems"(3) js_ordered_append [of "Object_keys student @ [header]" headers] by simp
  have n: "header \<notin> set (Object_keys student)" using "2.prems"(2) by auto
  have s: "set_prop header (Str ?v) student = student @ [(header, Str ?v)]"
    using th(2) n o by (rule set_prop_end)
  have k: "Object_keys (student @ [(header, Str ?v)]) @ headers = Object_keys student @ header # headers"
    by (simp add: Object_keys_def)
  have "headers_forEach headers (Suc index) values (student @ [(header, Str ?v)])
          = Inr ((student @ [(header, Str ?v)]) @ zip headers (map Str (drop (Suc index) values)))"
    using "2.IH" [OF i] "2.prems" unfolding tv th(1) s k by simp
  then show ?case
    using i by (simp add: tv th(1) s Cons_nth_drop_Suc [symmetric, OF i])
qed


lemma strings_zip:
  "\<forall>p\<in>set r. is_string (snd p) \<Longrightarrow> zip (map fst r) (map Str (map show_val (map snd r))) = r"
proof (induction r)
  case Nil
  then show ?case by simp
next
  case (Cons p r)
  obtain k v where p: "p = (k, v)" by (cases p)
  with Cons.prems obtain x where "v = Str x" by (cases v) simp_all
  with Cons p show ?case by (simp add: show_val_def)
qed

lemma plain_record_zip:
  "plain_record r \<Longrightarrow> zip (Object_keys r) (map Str (map show_val (Object_values r))) = r"
  unfolding Object_keys_def Object_values_def
  by (rule strings_zip) (simp add: plain_record_def Object_values_def)

lemma row_to_student_row_text:
  assumes "plain_record r" and "Object_keys r \<noteq> []"
  shows "row_to_student (Object_keys r) (row_text r) = Inr r"
proof -
  let ?vals = "map show_val (Object_values r)"
  have ne: "?vals \<noteq> []" using assms(2) by (simp add: Object_keys_def Object_values_def)
  have nc: "\<forall>x\<in>set ?vals. CHR '','' \<notin> set x"
    using assms(1) by (simp add: plain_record_def plain_def)
  have sp: "js_split CHR '','' (row_text r) = ?vals"
    unfolding row_text_def using ne nc by (rule js_split_join)
  have len: "length ?vals = 0 + length (Object_keys r)"
    by (simp add: Object_keys_def Object_values_def)
  have "headers_forEach (Object_keys r) 0 ?vals [] = Inr ([] @ zip (Object_keys r) (map Str (drop 0 ?vals)))"
    using len
  proof (rule headers_forEach_build)
    show "distinct (Object_keys [] @ Object_keys r)"
      using assms(1) by (simp add: plain_record_def Object_keys_def)
    show "js_ordered (Object_keys [] @ Object_keys r)"
      using assms(1) by (simp add: plain_record_def Object_keys_def)
    show "\<forall>k\<in>set (Object_keys r). trim k = k \<and> k \<noteq> ''__proto__''"
      using assms(1) by (simp add: plain_record_def plain_def)
    show "\<forall>v\<in>set ?vals. trim v = v"
      using assms(1) by (simp add: plain_record_def plain_def)
  qed
  then show ?thesis
    using plain_record_zip [OF assms(1)] by (simp add: row_to_student_def sp)
qed

lemma rows_map_row_text:
  assumes "\<forall>r\<in>set t. plain_record r \<and> Object_keys r = ks" and "ks \<noteq> []"
  shows "rows_map ks (map row_text t) = Inr t"
  using assms(1)
proof (induction t)
  case Nil
  then show ?case by simp
next
  case (Cons r t)
  then have "row_to_student ks (row_text r) = Inr r"
    using row_to_student_row_text [of r] assms(2) by auto
  with Cons show ?case by simp
qed

lemma csvContent_lines:
  "csvContent (s0 # rest) =
     js_join CHR ''\<newline>'' (js_join CHR '','' (Object_keys s0) # map row_text (s0 # rest))"
  by (simp add: csvContent_def row_text_def [abs_def])

lemma parse_csv_csvContent:
  assumes "\<forall>r\<in>set t. plain_record r \<and> Object_keys r = Object_keys (hd t)"
    and "trim (csvContent t) = csvContent t"
  shows "parse_csv (csvContent t) = Inr t"
proof (cases t)
  case Nil
  have "parse_csv ''name,roll,marks'' = Inr []" by code_simp
  then show ?thesis using Nil by (simp add: csvContent_def)
next
  case (Cons s0 rest)
  let ?ks = "Object_keys s0"
  let ?header = "js_join CHR '','' ?ks"
  let ?lines = "?header # map row_text t"
  have all: "\<forall>r\<in>set t. plain_record r \<and> Object_keys r = ?ks"
    using assms(1) Cons by simp
  have p0: "plain_record s0" using all Cons by simp
  have lines_eq: "csvContent t = js_join CHR ''\<newline>'' ?lines"
    using Cons by (simp add: csvContent_lines)
  have shape: "csvContent t = ?header @ CHR ''\<newline>'' # js_join CHR ''\<newline>'' (map row_text t)"
    using Cons by (simp add: csvContent_def row_text_def [abs_def])
  have ks: "?ks \<noteq> []"
  proof
    assume "?ks = []"
    then have "hd (csvContent t) = CHR ''\<newline>''" using shape by simp
    moreover have "csvContent t \<noteq> []" using shape by simp
    ultimately show False using trim_id_hd [OF assms(2)] by (simp add: is_ws_def)
  qed
  have nl_header: "CHR ''\<newline>'' \<notin> set ?header"
    using p0 by (intro notin_js_join) (simp_all add: plain_record_def plain_def)
  have nl_rows: "CHR ''\<newline>'' \<notin> set (row_text r)" if "r \<in> set t" for r
    unfolding row_text_def using all that
    by (intro notin_js_join) (simp_all add: plain_record_def plain_def)
  have "\<forall>x\<in>set ?lines. CHR ''\<newline>'' \<notin> set x"
    using nl_header nl_rows by auto
  then have lines: "js_split CHR ''\<newline>'' (csvContent t) = ?lines"
    unfolding lines_eq by (intro js_split_join) simp_all
  have "\<forall>k\<in>set ?ks. CHR '','' \<notin> set k"
    using p0 by (simp add: plain_record_def plain_def)
  with ks have header: "js_split CHR '','' ?header = ?ks" by (rule js_split_join)
  have "rows_map ?ks (map row_text t) = Inr t"
    using all ks by (rule rows_map_row_text)
  then show ?thesis by (simp add: parse_csv_def assms(2) lines header)
qed

lemma trim_id_last:
  assumes "trim s = s" and "s \<noteq> []"
  shows "\<not> is_ws (last s)"
proof -
  have "\<not> is_ws (hd s)" using assms by (rule trim_id_hd)
  then have "dropWhile is_ws s = s" using assms(2) by (simp add: dropWhile_eq_self_iff)
  then have "rev (dropWhile is_ws (rev s)) = s" using assms(1) by (simp add: trim_def)
  then have "dropWhile is_ws (rev s) = rev s" by (metis rev_rev_ident)
  then have "\<not> is_ws (hd (rev s))" using assms(2) by (simp add: dropWhile_eq_self_iff)
  then show ?thesis using assms(2) by (simp add: hd_rev)
qed

lemma not_ws_comma [simp]: "\<not> is_ws CHR '',''"
  by (simp add: is_ws_def)

lemma hd_js_join:
  "js_join c (x # xs) \<noteq> [] \<Longrightarrow> hd (js_join c (x # xs)) = (if x = [] then c else hd x)"
  by (cases xs) auto

lemma last_js_join:
  "js_join c (xs @ [x]) \<noteq> [] \<Longrightarrow> last (js_join c (xs @ [x])) = (if x = [] then c else last x)"
  by (cases "xs = []") (auto simp: js_join_snoc)

lemma js_join_ends:
  assumes "\<forall>x\<in>set xs. trim x = x" and "js_join CHR '','' xs \<noteq> []"
  shows "\<not> is_ws (hd (js_join CHR '','' xs)) \<and> \<not> is_ws (last (js_join CHR '','' xs))"
proof -
  from assms(2) have ne: "xs \<noteq> []" by auto
  then obtain x ys where c: "xs = x # ys" by (cases xs) auto
  from ne obtain zs z where s: "xs = zs @ [z]" by (cases xs rule: rev_cases) auto
  have "\<not> is_ws (hd (js_join CHR '','' xs))"
    using assms hd_js_join [of "CHR '',''" x ys] trim_id_hd [of x] unfolding c by auto
  moreover have "\<not> is_ws (last (js_join CHR '','' xs))"
    using assms last_js_join [of "CHR '',''" zs z] trim_id_last [of z] unfolding s by auto
  ultimately show ?thesis by simp
qed

lemma trim_default_header: "trim ''name,roll,marks'' = ''name,roll,marks''" by (simp add: trim_def is_ws_def)

lemma map_row_text_last: "t \<noteq> [] \<Longrightarrow> map row_text t = map row_text (butlast t) @ [row_text (last t)]"
  by (metis append_butlast_last_id list.simps(8,9) map_append)

lemma js_join_body:
  "x \<noteq> [] \<Longrightarrow> last (js_join c (xs @ [x])) = last x \<and> js_join c (xs @ [x]) \<noteq> []"
  by (cases "xs = []") (simp_all add: js_join_snoc)

lemma trim_csvContent:
  assumes "\<forall>r\<in>set t. plain_record r"
    and "t \<noteq> [] \<longrightarrow> js_join CHR '','' (Object_keys (hd t)) \<noteq> [] \<and> row_text (last t) \<noteq> []"
  shows "trim (csvContent t) = csvContent t"
proof (cases "t = []")
  case True
  then show ?thesis by (simp add: csvContent_def trim_default_header)
next
  case False
  then obtain s0 rest where t: "t = s0 # rest" by (cases t) auto
  let ?header = "js_join CHR '','' (Object_keys s0)"
  let ?body = "js_join CHR ''\<newline>'' (map row_text t)"
  have shape: "csvContent t = ?header @ CHR ''\<newline>'' # ?body"
    using t by (simp add: csvContent_def row_text_def [abs_def])
  have h: "?header \<noteq> []" using assms(2) t by simp
  have "plain_record s0" using assms(1) t by simp
  then have "\<forall>k\<in>set (Object_keys s0). trim k = k"
    by (simp add: plain_record_def plain_def)
  then have first: "\<not> is_ws (hd ?header)" using h by (simp add: js_join_ends)
  have l: "row_text (last t) \<noteq> []" using assms(2) False by simp
  have "plain_record (last t)" using assms(1) False by simp
  then have "\<forall>x\<in>set (map show_val (Object_values (last t))). trim x = x"
    by (simp add: plain_record_def plain_def)
  then have final: "\<not> is_ws (last (row_text (last t)))"
    using l unfolding row_text_def by (simp add: js_join_ends)
  have m: "map row_text t = map row_text (butlast t) @ [row_text (last t)]"
    using False by (rule map_row_text_last)
  have "last ?body = last (row_text (last t)) \<and> ?body \<noteq> []"
    unfolding m using l by (rule js_join_body)
  then have "\<not> is_ws (last (csvContent t))" using final by (simp add: shape)
  moreover have "\<not> is_ws (hd (csvContent t))" using first h by (simp add: shape)
  ultimately show ?thesis by (simp add: trim_id)
qed

lemma csvContent_not_Nil: "csvContent t \<noteq> []"
  by (cases t) (simp_all add: csvContent_def)

lemma saved_content:
  "write_fault d = None \<Longrightarrow> snd (saveStudents t d) = d\<lparr>content := Some (csvContent t)\<rparr>"
  by (simp add: saveStudents_def fs_writeFile_def)

lemma getStudents_content:
  "read_fault d = None \<Longrightarrow> content d = Some data \<Longrightarrow>
     fst (getStudents d) = readFile_callback (Inr data)"
  by (simp add: getStudents_def fs_readFile_def)

lemma load_csvContent:
  assumes "\<forall>r\<in>set t. plain_record r \<and> Object_keys r = Object_keys (hd t)"
    and "t \<noteq> [] \<longrightarrow> js_join CHR '','' (Object_keys (hd t)) \<noteq> [] \<and> row_text (last t) \<noteq> []"
  shows "readFile_callback (Inr (csvContent t)) = Resolve t"
proof -
  have "\<forall>r\<in>set t. plain_record r" using assms(1) by simp
  then have "trim (csvContent t) = csvContent t"
    using assms(2) by (rule trim_csvContent)
  with assms(1) have "parse_csv (csvContent t) = Inr t" by (rule parse_csv_csvContent)
  then show ?thesis by (simp add: readFile_callback_def csvContent_not_Nil)
qed

text \<open>
  \<^bold>\<open>C1\<close>, as the code has it. Saving and loading again gives the table back when all its
  records are plain and have the same column names in the same order, and the header
  line and the line of the last record are not empty (there are two columns or more, or
  the one column has a name that is not empty and a value in the last record that is not
  empty). The empty table is among them.
\<close>

theorem roundtrip:
  assumes "\<forall>r\<in>set t. plain_record r \<and> Object_keys r = Object_keys (hd t)"
    and "t \<noteq> [] \<longrightarrow> js_join CHR '','' (Object_keys (hd t)) \<noteq> [] \<and> row_text (last t) \<noteq> []"
    and "write_fault d = None" and "read_fault d = None"
  shows "fst (getStudents (snd (saveStudents t d))) = Resolve t"
proof -
  have r: "readFile_callback (Inr (csvContent t)) = Resolve t"
    using assms(1,2) by (rule load_csvContent)
  have s: "snd (saveStudents t d) = d\<lparr>content := Some (csvContent t)\<rparr>"
    using assms(3) by (rule saved_content)
  show ?thesis
    unfolding s using assms(4) r by (simp add: getStudents_content)
qed

theorem roundtrip_witness:
  "fst (getStudents (snd (saveStudents
         [[(''name'', Str ''A''), (''roll'', Str ''1''), (''marks'', Str [])],
          [(''name'', Str ''B b''), (''roll'', Str ''2''), (''marks'', Str ''80'')]]
         \<lparr>content = None, read_fault = None, write_fault = None, index_html = Inr [], reads = 0\<rparr>)))
   = Resolve [[(''name'', Str ''A''), (''roll'', Str ''1''), (''marks'', Str [])],
              [(''name'', Str ''B b''), (''roll'', Str ''2''), (''marks'', Str ''80'')]]"
proof -
  let ?t = "[[(''name'', Str ''A''), (''roll'', Str ''1''), (''marks'', Str [])],
             [(''name'', Str ''B b''), (''roll'', Str ''2''), (''marks'', Str ''80'')]]"
  let ?d = "\<lparr>content = None, read_fault = None, write_fault = None, index_html = Inr [], reads = 0\<rparr>"
  have a: "list_all (\<lambda>r. plain_record r \<and> Object_keys r = Object_keys (hd ?t)) ?t" by code_simp
  have 2: "?t \<noteq> [] \<longrightarrow> js_join CHR '','' (Object_keys (hd ?t)) \<noteq> [] \<and> row_text (last ?t) \<noteq> []"
    by code_simp
  have 1: "\<forall>r\<in>set ?t. plain_record r \<and> Object_keys r = Object_keys (hd ?t)"
    using a unfolding list_all_iff .
  show ?thesis using roundtrip [OF 1 2, of ?d] by simp
qed

text \<open>
  The claim \<^bold>\<open>C1\<close> as the specification words it fails at the table of one record whose
  name is \<open>A\<close> after a space: the value has no comma and no newline, and the table that
  loads has the name \<open>A\<close> without the space, since \<open>getStudents\<close> trims every value.
\<close>

theorem roundtrip_counterexample:
  "CHR '','' \<notin> set '' A'' \<and> CHR ''\<newline>'' \<notin> set '' A''
   \<and> fst (getStudents (snd (saveStudents [[(''name'', Str '' A'')]]
         \<lparr>content = None, read_fault = None, write_fault = None, index_html = Inr [], reads = 0\<rparr>)))
     = Resolve [[(''name'', Str ''A'')]]
   \<and> fst (getStudents (snd (saveStudents [[(''name'', Str '' A'')]]
         \<lparr>content = None, read_fault = None, write_fault = None, index_html = Inr [], reads = 0\<rparr>)))
     \<noteq> Resolve [[(''name'', Str '' A'')]]"
  by code_simp


text \<open>
  Two more tables that do not come back: records with the same columns in another
  order, and a single column whose last value is empty.
\<close>

lemma roundtrip_needs_order:
  "parse_csv (csvContent [[(''name'', Str ''A''), (''roll'', Str ''1'')],
                          [(''roll'', Str ''2''), (''name'', Str ''B'')]])
   = Inr [[(''name'', Str ''A''), (''roll'', Str ''1'')],
          [(''name'', Str ''2''), (''roll'', Str ''B'')]]"
  by code_simp

lemma roundtrip_needs_last_line:
  "parse_csv (csvContent [[(''name'', Str ''A'')], [(''name'', Str [])]])
   = Inr [[(''name'', Str ''A'')]]"
  by code_simp

section \<open>Add, seen from the next load\<close>

text \<open>
  \<^bold>\<open>C3\<close>, as the code has it. When the table \<open>t\<close> loads, the file can be read and
  written, and \<open>t\<close> with the record \<open>r\<close> appended is one of the tables that come back from
  saving (all records, \<open>r\<close> among them, are plain and have the same column names in the
  same order, and the header line and the line of \<open>r\<close> are not empty), \<open>/add\<close> of \<open>r\<close>
  replies 201, writes the serialisation of \<open>t @ [r]\<close>, and the table that the next
  \<open>getStudents\<close> loads is exactly \<open>t @ [r]\<close>: the records of \<open>t\<close> with their values, in
  their order, and \<open>r\<close> after them.
\<close>

theorem add_appends:
  assumes "fst (getStudents d) = Resolve t"
    and "write_fault d = None" and "read_fault d = None"
    and "\<forall>s\<in>set (t @ [r]). plain_record s \<and> Object_keys s = Object_keys (hd (t @ [r]))"
    and "js_join CHR '','' (Object_keys (hd (t @ [r]))) \<noteq> []" and "row_text r \<noteq> []"
  shows "add_handler r d =
           (Reply 201 (JsonStudent ''Student added successfully'' r),
            d\<lparr>reads := Suc (reads d), content := Some (csvContent (t @ [r]))\<rparr>)
         \<and> fst (getStudents (snd (add_handler r d))) = Resolve (t @ [r])"
proof -
  have a: "add_handler r d =
           (Reply 201 (JsonStudent ''Student added successfully'' r),
            d\<lparr>reads := Suc (reads d), content := Some (csvContent (t @ [r]))\<rparr>)"
    using assms(1,2) by (rule add_handler_saved)
  have "readFile_callback (Inr (csvContent (t @ [r]))) = Resolve (t @ [r])"
    using assms(4,5,6) by (intro load_csvContent) simp_all
  then have "fst (getStudents (snd (add_handler r d))) = Resolve (t @ [r])"
    using assms(3) by (simp add: a getStudents_content)
  with a show ?thesis by simp
qed

text \<open>The example of the specification: adding B to the table that holds A.\<close>

theorem add_appends_witness:
  "add_handler [(''name'', Str ''B''), (''roll'', Str ''2''), (''marks'', Str ''80'')]
     \<lparr>content = Some ''name,roll,marks\<newline>A,1,90'', read_fault = None, write_fault = None,
      index_html = Inr [], reads = 0\<rparr>
   = (Reply 201 (JsonStudent ''Student added successfully''
                   [(''name'', Str ''B''), (''roll'', Str ''2''), (''marks'', Str ''80'')]),
      \<lparr>content = Some ''name,roll,marks\<newline>A,1,90\<newline>B,2,80'', read_fault = None,
       write_fault = None, index_html = Inr [], reads = 1\<rparr>)
   \<and> fst (getStudents
           \<lparr>content = Some ''name,roll,marks\<newline>A,1,90\<newline>B,2,80'', read_fault = None,
            write_fault = None, index_html = Inr [], reads = 1\<rparr>)
     = Resolve [[(''name'', Str ''A''), (''roll'', Str ''1''), (''marks'', Str ''90'')],
                [(''name'', Str ''B''), (''roll'', Str ''2''), (''marks'', Str ''80'')]]"
proof -
  let ?d = "\<lparr>content = Some ''name,roll,marks\<newline>A,1,90'', read_fault = None,
             write_fault = None, index_html = Inr [], reads = 0\<rparr>"
  let ?t = "[[(''name'', Str ''A''), (''roll'', Str ''1''), (''marks'', Str ''90'')]]"
  let ?r = "[(''name'', Str ''B''), (''roll'', Str ''2''), (''marks'', Str ''80'')]"
  have l: "fst (getStudents ?d) = Resolve ?t" by code_simp
  have w: "write_fault ?d = None" by simp
  have f: "read_fault ?d = None" by simp
  have "list_all (\<lambda>s. plain_record s \<and> Object_keys s = Object_keys (hd (?t @ [?r]))) (?t @ [?r])"
    by code_simp
  then have p: "\<forall>s\<in>set (?t @ [?r]). plain_record s \<and> Object_keys s = Object_keys (hd (?t @ [?r]))"
    unfolding list_all_iff .
  have h: "js_join CHR '','' (Object_keys (hd (?t @ [?r]))) \<noteq> []" by code_simp
  have n: "row_text ?r \<noteq> []" by code_simp
  have c: "csvContent (?t @ [?r]) = ''name,roll,marks\<newline>A,1,90\<newline>B,2,80''" by code_simp
  have "add_handler ?r ?d =
           (Reply 201 (JsonStudent ''Student added successfully'' ?r),
            ?d\<lparr>reads := Suc (reads ?d), content := Some (csvContent (?t @ [?r]))\<rparr>)
         \<and> fst (getStudents (snd (add_handler ?r ?d))) = Resolve (?t @ [?r])"
    using l w f p h n by (rule add_appends)
  then have a: "add_handler ?r ?d =
           (Reply 201 (JsonStudent ''Student added successfully'' ?r),
            ?d\<lparr>reads := Suc (reads ?d), content := Some (csvContent (?t @ [?r]))\<rparr>)"
    and g: "fst (getStudents (snd (add_handler ?r ?d))) = Resolve (?t @ [?r])"
    by blast+
  have s: "snd (add_handler ?r ?d) =
             \<lparr>content = Some ''name,roll,marks\<newline>A,1,90\<newline>B,2,80'', read_fault = None,
              write_fault = None, index_html = Inr [], reads = 1\<rparr>"
    unfolding a c by simp
  show ?thesis using a g unfolding s c by simp
qed

text \<open>
  The claim \<^bold>\<open>C3\<close> as the specification words it, for every record, fails at the record
  with no field (an empty request body) added to the table that holds A: the reply is
  201, the line written for the record is empty, and the next load gives the table as
  it was, without a record at its end.
\<close>

theorem add_empty_record_counterexample:
  "fst (getStudents \<lparr>content = Some ''name\<newline>A'', read_fault = None, write_fault = None,
                      index_html = Inr [], reads = 0\<rparr>) = Resolve [[(''name'', Str ''A'')]]
   \<and> add_handler []
        \<lparr>content = Some ''name\<newline>A'', read_fault = None, write_fault = None,
         index_html = Inr [], reads = 0\<rparr>
      = (Reply 201 (JsonStudent ''Student added successfully'' []),
         \<lparr>content = Some ''name\<newline>A\<newline>'', read_fault = None, write_fault = None,
          index_html = Inr [], reads = 1\<rparr>)
   \<and> fst (getStudents \<lparr>content = Some ''name\<newline>A\<newline>'', read_fault = None, write_fault = None,
                        index_html = Inr [], reads = 1\<rparr>) = Resolve [[(''name'', Str ''A'')]]
   \<and> fst (getStudents \<lparr>content = Some ''name\<newline>A\<newline>'', read_fault = None, write_fault = None,
                        index_html = Inr [], reads = 1\<rparr>) \<noteq> Resolve ([[(''name'', Str ''A'')]] @ [[]])"
  by code_simp

end
